theory Spec2Isabelle
  imports Main "HOL-Library.Word" "HOL-Library.Multiset"
begin

section \<open>The task scheduler of week3/advanced_task_scheduler.hpp\<close>

text \<open>
  A shallow embedding of the priority task scheduler: \<open>TaskResult\<close>, \<open>Task\<close>,
  \<open>TaskComparator\<close>, \<open>ThreadPool\<close> and \<open>TaskScheduler\<close>. Exceptions are values of a
  sum type (\<open>Inl\<close> is a throw), mutation is state passing, a \<open>std::shared_ptr\<close> is
  an address into an explicit store of task objects, and the caller's callable is a state
  transformer over the environment it captures.
\<close>

subsection \<open>Exceptions, priorities, statuses\<close>

text \<open>
  The three exception classes of the header, each with its message, and any other
  exception a callable may throw (\<open>std::runtime_error\<close>, \<open>std::invalid_argument\<close> ...).
\<close>

datatype exn =
    TaskSchedulerException string
  | TaskNotFoundException string
  | DuplicateTaskException string
  | OtherException string

text \<open>The classes a handler of the header's hierarchy can name.\<close>

datatype exn_class = CTaskSchedulerException | CTaskNotFoundException | CDuplicateTaskException

text \<open>
  \<open>caught_by e C\<close>: a handler \<open>catch (const C&)\<close> catches \<open>e\<close>.
  \<open>TaskNotFoundException\<close> and \<open>DuplicateTaskException\<close> derive from
  \<open>TaskSchedulerException\<close>.
\<close>

fun caught_by :: "exn \<Rightarrow> exn_class \<Rightarrow> bool" where
  "caught_by (TaskSchedulerException m) C = (C = CTaskSchedulerException)"
| "caught_by (TaskNotFoundException m) C = (C = CTaskSchedulerException \<or> C = CTaskNotFoundException)"
| "caught_by (DuplicateTaskException m) C = (C = CTaskSchedulerException \<or> C = CDuplicateTaskException)"
| "caught_by (OtherException m) C = False"

datatype Priority = LOW | MEDIUM | HIGH | CRITICAL

text \<open>The underlying value of the \<open>enum class\<close>; \<open><\<close> on priorities compares these.\<close>

fun priority_rank :: "Priority \<Rightarrow> nat" where
  "priority_rank LOW = 0"
| "priority_rank MEDIUM = 1"
| "priority_rank HIGH = 2"
| "priority_rank CRITICAL = 3"

datatype TaskStatus = PENDING | RUNNING | COMPLETED | FAILED | CANCELLED

subsection \<open>Result types and values\<close>

text \<open>
  The template parameter \<open>ResultType\<close> is a tag carried by the task; the values of all
  result types live in one universe. \<open>VoidT\<close> selects the \<open>void\<close> specialisation.
\<close>

datatype rtype = VoidT | IntT | StringT | IntVectorT

datatype val = IntV int | StringV string | IntVectorV "int list"

text \<open>
  What one call of the callable does: it returns or it throws. A \<open>void\<close> callable
  returns nothing; the model gives it a value that \<open>execute\<close> never looks at.
\<close>

datatype outcome = Returned val | Thrown exn

text \<open>
  \<open>std::function<ResultType()>\<close>: a closure. It may read and change whatever it
  captured, so it maps the environment \<open>'w\<close> to an outcome and a new environment.
\<close>

type_synonym 'w callable = "'w \<Rightarrow> outcome \<times> 'w"

subsection \<open>TaskResult\<close>

text \<open>
  Fields \<open>result_\<close>, \<open>exception_\<close>, \<open>status_\<close>. The \<open>void\<close> specialisation has no
  \<open>result_\<close>: there the field stays \<open>None\<close>.
\<close>

record TaskResult =
  r_result :: "val option"
  r_exception :: "exn option"
  r_status :: TaskStatus

definition new_TaskResult :: TaskResult where
  "new_TaskResult = \<lparr>r_result = None, r_exception = None, r_status = PENDING\<rparr>"

definition setResult :: "val \<Rightarrow> TaskResult \<Rightarrow> TaskResult" where
  "setResult v r = r\<lparr>r_result := Some v, r_status := COMPLETED\<rparr>"

definition setCompleted :: "TaskResult \<Rightarrow> TaskResult" where
  "setCompleted r = r\<lparr>r_status := COMPLETED\<rparr>"

definition setException :: "exn \<Rightarrow> TaskResult \<Rightarrow> TaskResult" where
  "setException e r = r\<lparr>r_exception := Some e, r_status := FAILED\<rparr>"

definition setStatus :: "TaskStatus \<Rightarrow> TaskResult \<Rightarrow> TaskResult" where
  "setStatus st r = r\<lparr>r_status := st\<rparr>"

definition hasResult :: "TaskResult \<Rightarrow> bool" where
  "hasResult r = (r_result r \<noteq> None)"

definition hasException :: "TaskResult \<Rightarrow> bool" where
  "hasException r = (r_exception r \<noteq> None)"

definition tryGetResult :: "TaskResult \<Rightarrow> val option" where
  "tryGetResult r = r_result r"

text \<open>
  \<open>TaskResult<ResultType>::getResult\<close>, the primary template and the \<open>void\<close>
  specialisation. \<open>Inl e\<close> is \<open>throw e\<close>; for \<open>void\<close> a normal return is \<open>Inr None\<close>.
\<close>

definition getResult :: "rtype \<Rightarrow> TaskResult \<Rightarrow> exn + val option" where
  "getResult rt r =
     (case r_exception r of
        Some e \<Rightarrow> Inl e
      | None \<Rightarrow>
          if rt = VoidT then
            (if r_status r \<noteq> COMPLETED then Inl (TaskSchedulerException ''Task not completed'')
             else Inr None)
          else
            (case r_result r of
               None \<Rightarrow> Inl (TaskSchedulerException ''Task has no result'')
             | Some v \<Rightarrow> Inr (Some v)))"

subsection \<open>Task\<close>

text \<open>
  Fields \<open>name_\<close>, \<open>function_\<close>, \<open>result_\<close>, \<open>priority_\<close>, \<open>scheduledTime_\<close>,
  \<open>status_\<close>, \<open>cancellable_\<close>, and the template parameter as \<open>trtype\<close>. A time point
  is a number of clock ticks.
\<close>

record 'w Task =
  tname :: string
  tfunction :: "'w callable"
  tresult :: TaskResult
  tpriority :: Priority
  tscheduledTime :: int
  tstatus :: TaskStatus
  tcancellable :: bool
  trtype :: rtype

definition new_Task ::
  "rtype \<Rightarrow> string \<Rightarrow> 'w callable \<Rightarrow> Priority \<Rightarrow> int \<Rightarrow> bool \<Rightarrow> 'w Task" where
  "new_Task rt name f priority scheduledTime cancellable =
     \<lparr>tname = name, tfunction = f, tresult = new_TaskResult, tpriority = priority,
      tscheduledTime = scheduledTime, tstatus = PENDING, tcancellable = cancellable,
      trtype = rt\<rparr>"

text \<open>
  \<open>Task::execute\<close>. The only statement that can throw is the call of the callable, inside
  \<open>try\<close>; \<open>catch (...)\<close> takes every exception. The result is \<open>Inr\<close> of the task and
  the environment after the call.
\<close>

definition execute :: "'w Task \<Rightarrow> 'w \<Rightarrow> exn + ('w Task \<times> 'w)" where
  "execute t w =
     (if tstatus t = CANCELLED then Inr (t, w)
      else
        let t1 = t\<lparr>tstatus := RUNNING\<rparr> in
        (case tfunction t1 w of
           (Returned v, w') \<Rightarrow>
             Inr (t1\<lparr>tresult := (if trtype t1 = VoidT then setCompleted (tresult t1)
                                   else setResult v (tresult t1)),
                     tstatus := COMPLETED\<rparr>, w')
         | (Thrown e, w') \<Rightarrow>
             Inr (t1\<lparr>tresult := setException e (tresult t1), tstatus := FAILED\<rparr>, w')))"

definition cancel :: "'w Task \<Rightarrow> 'w Task" where
  "cancel t =
     (if tcancellable t \<and> tstatus t = PENDING
      then t\<lparr>tstatus := CANCELLED, tresult := setStatus CANCELLED (tresult t)\<rparr>
      else t)"

text \<open>\<open>std::any\<close> as \<open>getResultAsAny\<close> fills it: empty, or holding a \<open>std::optional<ResultType>\<close>.\<close>

datatype any = AnyEmpty | AnyOptional "val option"

definition getResultAsAny :: "'w Task \<Rightarrow> any" where
  "getResultAsAny t =
     (if trtype t = VoidT then AnyEmpty
      else if hasResult (tresult t) then AnyOptional (tryGetResult (tresult t))
      else AnyEmpty)"

subsection \<open>TaskComparator and the priority queue\<close>

text \<open>\<open>TaskComparator::operator()\<close> on the two tasks the pointers refer to.\<close>

definition TaskComparator :: "'w Task \<Rightarrow> 'w Task \<Rightarrow> bool" where
  "TaskComparator a b =
     (if tpriority a \<noteq> tpriority b
      then priority_rank (tpriority a) < priority_rank (tpriority b)
      else tscheduledTime a > tscheduledTime b)"

text \<open>
  \<open>std::priority_queue<T, vector<T>, Compare>\<close> is library code. Its contract: \<open>top()\<close>
  is an element that \<open>Compare\<close> puts below no other element, \<open>pop()\<close> removes it. The
  model keeps the elements in a list and scans for such an element.
\<close>

fun pq_best :: "('a \<Rightarrow> 'a \<Rightarrow> bool) \<Rightarrow> 'a \<Rightarrow> 'a list \<Rightarrow> 'a" where
  "pq_best cmp m [] = m"
| "pq_best cmp m (x # xs) = pq_best cmp (if cmp m x then x else m) xs"

definition pq_top :: "('a \<Rightarrow> 'a \<Rightarrow> bool) \<Rightarrow> 'a list \<Rightarrow> 'a option" where
  "pq_top cmp q = (case q of [] \<Rightarrow> None | x # xs \<Rightarrow> Some (pq_best cmp x xs))"

definition pq_pop :: "('a \<Rightarrow> 'a \<Rightarrow> bool) \<Rightarrow> 'a list \<Rightarrow> 'a list" where
  "pq_pop cmp q = (case pq_top cmp q of None \<Rightarrow> q | Some t \<Rightarrow> remove1 t q)"

definition pq_push :: "'a \<Rightarrow> 'a list \<Rightarrow> 'a list" where
  "pq_push x q = q @ [x]"

lemma pq_best_in: "pq_best cmp m xs \<in> set (m # xs)"
  by (induction xs arbitrary: m) auto

lemma pq_top_in: "pq_top cmp q = Some t \<Longrightarrow> t \<in> set q"
  using pq_best_in [of cmp] by (auto simp: pq_top_def split: list.splits)

lemma pq_top_None: "pq_top cmp q = None \<longleftrightarrow> q = []"
  by (simp add: pq_top_def split: list.splits)

lemma pq_pop_length: "pq_top cmp q = Some t \<Longrightarrow> length (pq_pop cmp q) < length q"
proof -
  assume top: "pq_top cmp q = Some t"
  then have mem: "t \<in> set q" by (rule pq_top_in)
  then have "0 < length q" by (cases q) auto
  with top mem show ?thesis by (simp add: pq_pop_def length_remove1)
qed

text \<open>The order in which repeated \<open>top(); pop()\<close> hands out the elements of a queue.\<close>

function pq_drain :: "('a \<Rightarrow> 'a \<Rightarrow> bool) \<Rightarrow> 'a list \<Rightarrow> 'a list" where
  "pq_drain cmp q =
     (case pq_top cmp q of
        None \<Rightarrow> []
      | Some t \<Rightarrow> t # pq_drain cmp (pq_pop cmp q))"
  by pat_completeness auto

termination
  by (relation "measure (\<lambda>(cmp, q). length q)") (auto simp: pq_pop_length)

declare pq_drain.simps [simp del]

text \<open>
  The queue holds shared pointers: addresses into the store \<open>h\<close> of task objects. The
  comparator dereferences both.
\<close>

definition task_cmp :: "(nat \<Rightarrow> 'w Task) \<Rightarrow> nat \<Rightarrow> nat \<Rightarrow> bool" where
  "task_cmp h a b = TaskComparator (h a) (h b)"

text \<open>
  \<open>goes_first A B\<close>: \<open>A\<close> has the higher priority, or the same priority and the earlier
  scheduled time.
\<close>

definition goes_first :: "'w Task \<Rightarrow> 'w Task \<Rightarrow> bool" where
  "goes_first A B =
     (priority_rank (tpriority A) > priority_rank (tpriority B)
      \<or> (tpriority A = tpriority B \<and> tscheduledTime A < tscheduledTime B))"

subsection \<open>ThreadPool\<close>

text \<open>
  Fields \<open>tasks_\<close> (the priority queue of shared pointers), \<open>stop_\<close>,
  \<open>activeThreads_\<close>, \<open>maxThreads_\<close>. \<open>size_t\<close> is a 64-bit word.
\<close>

record ThreadPool =
  pool_tasks :: "nat list"
  stop :: bool
  activeThreads :: "64 word"
  maxThreads :: "64 word"

definition new_ThreadPool :: "64 word \<Rightarrow> ThreadPool" where
  "new_ThreadPool threads =
     \<lparr>pool_tasks = [], stop = False, activeThreads = 0, maxThreads = threads\<rparr>"

definition enqueue :: "nat \<Rightarrow> ThreadPool \<Rightarrow> exn + ThreadPool" where
  "enqueue task p =
     (if stop p then Inl (TaskSchedulerException ''ThreadPool has been stopped'')
      else Inr (p\<lparr>pool_tasks := pq_push task (pool_tasks p)\<rparr>))"

definition getQueueSize :: "ThreadPool \<Rightarrow> 64 word" where
  "getQueueSize p = of_nat (length (pool_tasks p))"

definition getActiveThreadCount :: "ThreadPool \<Rightarrow> 64 word" where
  "getActiveThreadCount p = activeThreads p"

definition getMaxThreadCount :: "ThreadPool \<Rightarrow> 64 word" where
  "getMaxThreadCount p = maxThreads p"

subsection \<open>TaskScheduler\<close>

text \<open>The private counters \<open>stats_\<close>.\<close>

record Statistics =
  stats_totalTasks :: "64 word"
  stats_completedTasks :: "64 word"
  stats_failedTasks :: "64 word"
  stats_cancelledTasks :: "64 word"

text \<open>The struct \<open>getStatistics\<close> returns.\<close>

record TaskStatistics =
  totalTasks :: "64 word"
  completedTasks :: "64 word"
  failedTasks :: "64 word"
  cancelledTasks :: "64 word"
  pendingTasks :: "64 word"
  activeThreadCount :: "64 word"
  maxThreadCount :: "64 word"

text \<open>
  The scheduler's fields \<open>threadPool_\<close>, \<open>tasks_\<close> (name to shared pointer; an
  association list, looked up with \<open>map_of\<close>) and \<open>stats_\<close>, together with what
  the C++ keeps outside the object: the store of task objects the shared pointers point
  into (\<open>heap\<close>, with \<open>next_addr\<close> the next address \<open>make_shared\<close> hands out), the
  detached timer threads, each holding the task it will enqueue (\<open>timers\<close>), and the
  environment of the callables (\<open>world\<close>).
\<close>

record 'w TaskScheduler =
  threadPool :: ThreadPool
  tasks :: "(string \<times> nat) list"
  stats :: Statistics
  heap :: "nat \<Rightarrow> 'w Task"
  next_addr :: nat
  timers :: "nat list"
  world :: 'w

text \<open>
  The constructor. \<open>mem\<close> is the store as it is before anything is allocated: no
  pointer refers to it.
\<close>

definition new_TaskScheduler :: "64 word \<Rightarrow> (nat \<Rightarrow> 'w Task) \<Rightarrow> 'w \<Rightarrow> 'w TaskScheduler" where
  "new_TaskScheduler threadCount mem w =
     \<lparr>threadPool = new_ThreadPool threadCount, tasks = [],
      stats = \<lparr>stats_totalTasks = 0, stats_completedTasks = 0, stats_failedTasks = 0,
               stats_cancelledTasks = 0\<rparr>,
      heap = mem, next_addr = 0, timers = [], world = w\<rparr>"

text \<open>A name between single quotes, as the messages print it.\<close>

definition quoted :: "string \<Rightarrow> string" where
  "quoted name = CHR 0x27 # name @ [CHR 0x27]"

definition not_found :: "string \<Rightarrow> exn" where
  "not_found name = TaskNotFoundException (''Task '' @ quoted name @ '' not found'')"

text \<open>
  \<open>scheduleTask<ResultType>\<close>. \<open>now\<close> is the clock reading of the comparison with
  \<open>scheduledTime\<close>. The result is the handle (the address of the new task) or the
  exception, and the state after the call.
\<close>

definition scheduleTask ::
  "rtype \<Rightarrow> string \<Rightarrow> 'w callable \<Rightarrow> Priority \<Rightarrow> int \<Rightarrow> bool \<Rightarrow> int \<Rightarrow> 'w TaskScheduler
     \<Rightarrow> (exn + nat) \<times> 'w TaskScheduler" where
  "scheduleTask rt name f priority scheduledTime cancellable now s =
     (if map_of (tasks s) name \<noteq> None then
        (Inl (DuplicateTaskException (''Task with name '' @ quoted name @ '' already exists'')), s)
      else
        let task = next_addr s;
            s1 = s\<lparr>heap := (heap s)(task := new_Task rt name f priority scheduledTime cancellable),
                   next_addr := Suc task,
                   tasks := (name, task) # tasks s,
                   stats := (stats s)\<lparr>stats_totalTasks := stats_totalTasks (stats s) + 1\<rparr>\<rparr>
        in if scheduledTime \<le> now then
             (case enqueue task (threadPool s1) of
                Inl e \<Rightarrow> (Inl e, s1)
              | Inr p \<Rightarrow> (Inr task, s1\<lparr>threadPool := p\<rparr>))
           else (Inr task, s1\<lparr>timers := timers s1 @ [task]\<rparr>))"

definition cancelTask :: "string \<Rightarrow> 'w TaskScheduler \<Rightarrow> (exn + bool) \<times> 'w TaskScheduler" where
  "cancelTask name s =
     (case map_of (tasks s) name of
        None \<Rightarrow> (Inl (not_found name), s)
      | Some a \<Rightarrow>
          let task = heap s a in
          if tcancellable task \<and> tstatus task = PENDING then
            (Inr True,
             s\<lparr>heap := (heap s)(a := cancel task),
               stats := (stats s)\<lparr>stats_cancelledTasks := stats_cancelledTasks (stats s) + 1\<rparr>\<rparr>)
          else (Inr False, s))"

text \<open>
  \<open>getTaskStatus\<close>, with its update of the counters: the status is read into
  \<open>status\<close> and then read again from the same task for the comparison.
\<close>

definition getTaskStatus ::
  "string \<Rightarrow> 'w TaskScheduler \<Rightarrow> (exn + TaskStatus) \<times> 'w TaskScheduler" where
  "getTaskStatus name s =
     (case map_of (tasks s) name of
        None \<Rightarrow> (Inl (not_found name), s)
      | Some a \<Rightarrow>
          let status = tstatus (heap s a) in
          (Inr status,
           if status = COMPLETED \<and> tstatus (heap s a) \<noteq> COMPLETED then
             s\<lparr>stats := (stats s)\<lparr>stats_completedTasks := stats_completedTasks (stats s) + 1\<rparr>\<rparr>
           else if status = FAILED \<and> tstatus (heap s a) \<noteq> FAILED then
             s\<lparr>stats := (stats s)\<lparr>stats_failedTasks := stats_failedTasks (stats s) + 1\<rparr>\<rparr>
           else s))"

definition getTaskResultAsAny :: "string \<Rightarrow> 'w TaskScheduler \<Rightarrow> exn + any" where
  "getTaskResultAsAny name s =
     (case map_of (tasks s) name of
        None \<Rightarrow> Inl (not_found name)
      | Some a \<Rightarrow> Inr (getResultAsAny (heap s a)))"

text \<open>
  \<open>getTaskResult<ResultType>\<close>: \<open>dynamic_pointer_cast<Task<ResultType>>\<close> is null
  exactly when the task was made for another result type. It returns a copy of the task's
  \<open>TaskResult\<close>.
\<close>

definition getTaskResult :: "rtype \<Rightarrow> string \<Rightarrow> 'w TaskScheduler \<Rightarrow> exn + TaskResult" where
  "getTaskResult rt name s =
     (case map_of (tasks s) name of
        None \<Rightarrow> Inl (not_found name)
      | Some a \<Rightarrow>
          if trtype (heap s a) \<noteq> rt then Inl (TaskSchedulerException ''Task result type mismatch'')
          else Inr (tresult (heap s a)))"

text \<open>\<open>getTaskResult<ResultType>(name).getResult()\<close>.\<close>

definition getTaskResult_getResult ::
  "rtype \<Rightarrow> string \<Rightarrow> 'w TaskScheduler \<Rightarrow> exn + val option" where
  "getTaskResult_getResult rt name s =
     (case getTaskResult rt name s of Inl e \<Rightarrow> Inl e | Inr r \<Rightarrow> getResult rt r)"

text \<open>
  \<open>waitForTask<ResultType>\<close>: a polling loop. While the caller sleeps the other threads
  run; \<open>env\<close> is what they do to the state between two polls. The loop need not end:
  \<open>None\<close> is the call that never returns. The handler for \<open>TaskNotFoundException\<close>
  rethrows, so every exception leaves the loop.
\<close>

partial_function (option) waitForTask ::
  "('w TaskScheduler \<Rightarrow> 'w TaskScheduler) \<Rightarrow> rtype \<Rightarrow> string \<Rightarrow> 'w TaskScheduler
     \<Rightarrow> ((exn + val option) \<times> 'w TaskScheduler) option" where
  "waitForTask env rt name s =
     (case getTaskStatus name s of
        (Inl e, s1) \<Rightarrow> Some (Inl e, s1)
      | (Inr status, s1) \<Rightarrow>
          if status = COMPLETED then Some (getTaskResult_getResult rt name s1, s1)
          else if status = FAILED then
            (case getTaskResult_getResult rt name s1 of
               Inl e \<Rightarrow> Some (Inl e, s1)
             | Inr v \<Rightarrow> waitForTask env rt name (env s1))
          else if status = CANCELLED then
            Some (Inl (TaskSchedulerException ''Task was cancelled''), s1)
          else waitForTask env rt name (env s1))"

definition getStatistics :: "'w TaskScheduler \<Rightarrow> TaskStatistics" where
  "getStatistics s =
     \<lparr>totalTasks = stats_totalTasks (stats s),
      completedTasks = stats_completedTasks (stats s),
      failedTasks = stats_failedTasks (stats s),
      cancelledTasks = stats_cancelledTasks (stats s),
      pendingTasks = of_nat (length (filter (\<lambda>(name, a). tstatus (heap s a) = PENDING) (tasks s))),
      activeThreadCount = getActiveThreadCount (threadPool s),
      maxThreadCount = getMaxThreadCount (threadPool s)\<rparr>"

definition listTasks :: "'w TaskScheduler \<Rightarrow> (string \<times> TaskStatus) list" where
  "listTasks s = map (\<lambda>(name, a). (name, tstatus (heap s a))) (tasks s)"

definition cleanup :: "'w TaskScheduler \<Rightarrow> 'w TaskScheduler" where
  "cleanup s =
     s\<lparr>tasks := filter (\<lambda>(name, a). \<not> (tstatus (heap s a) = COMPLETED
                                        \<or> tstatus (heap s a) = FAILED
                                        \<or> tstatus (heap s a) = CANCELLED)) (tasks s)\<rparr>"

subsection \<open>The worker loop and the pool's destructor\<close>

text \<open>How a worker's run ends in this model.\<close>

datatype worker_end = Exited | Blocked | Terminated exn

text \<open>
  One pass through the body of the worker's \<open>while (true)\<close>: the wait on the condition
  variable, the exit test, \<open>top(); pop()\<close>, and \<open>execute()\<close> between the two updates of
  \<open>activeThreads_\<close>. \<open>Return\<close> ends the worker's run, \<open>Again\<close> goes round the loop.
  A wait whose predicate is false ends the run as \<open>Blocked\<close>: the worker sleeps until
  another thread changes the state. An exception out of \<open>execute()\<close> would end the thread.
\<close>

datatype 'w pass = Return worker_end "'w TaskScheduler" | Again "'w TaskScheduler"

definition worker_pass :: "'w TaskScheduler \<Rightarrow> 'w pass" where
  "worker_pass s =
     (if \<not> (stop (threadPool s) \<or> pool_tasks (threadPool s) \<noteq> []) then Return Blocked s
      else if stop (threadPool s) \<and> pool_tasks (threadPool s) = [] then Return Exited s
      else
        (case pq_top (task_cmp (heap s)) (pool_tasks (threadPool s)) of
           None \<Rightarrow> Return Blocked s
         | Some task \<Rightarrow>
             let s1 = s\<lparr>threadPool := (threadPool s)
                        \<lparr>pool_tasks := pq_pop (task_cmp (heap s)) (pool_tasks (threadPool s)),
                         activeThreads := activeThreads (threadPool s) + 1\<rparr>\<rparr>
             in (case execute (heap s1 task) (world s1) of
                   Inl e \<Rightarrow> Return (Terminated e) s1
                 | Inr (t', w') \<Rightarrow>
                     Again (s1\<lparr>heap := (heap s1)(task := t'), world := w',
                               threadPool := (threadPool s1)
                                 \<lparr>activeThreads := activeThreads (threadPool s1) - 1\<rparr>\<rparr>))))"

lemma worker_pass_Again:
  assumes "worker_pass s = Again s'"
  shows "\<exists>task t' w'.
           pq_top (task_cmp (heap s)) (pool_tasks (threadPool s)) = Some task
         \<and> execute (heap s task) (world s) = Inr (t', w')
         \<and> heap s' = (heap s)(task := t') \<and> world s' = w'
         \<and> pool_tasks (threadPool s') = pq_pop (task_cmp (heap s)) (pool_tasks (threadPool s))
         \<and> stop (threadPool s') = stop (threadPool s)"
  using assms
  by (auto simp: worker_pass_def Let_def split: if_splits option.splits sum.splits prod.splits)

lemma worker_pass_shorter:
  "worker_pass s = Again s' \<Longrightarrow>
     length (pool_tasks (threadPool s')) < length (pool_tasks (threadPool s))"
  by (auto dest!: worker_pass_Again simp: pq_pop_length)

text \<open>
  The worker's run: passes until one returns. Each pass that goes round takes a task off
  the queue, and \<open>execute()\<close> adds none, so the run ends.
\<close>

function worker_loop :: "'w TaskScheduler \<Rightarrow> worker_end \<times> 'w TaskScheduler" where
  "worker_loop s =
     (case worker_pass s of
        Return e s' \<Rightarrow> (e, s')
      | Again s' \<Rightarrow> worker_loop s')"
  by pat_completeness auto

termination
  by (relation "measure (\<lambda>s. length (pool_tasks (threadPool s)))")
     (auto simp: worker_pass_shorter)

declare worker_loop.simps [simp del]


subsection \<open>The caller's handle\<close>

text \<open>
  The caller's own call of \<open>execute()\<close> on the handle that \<open>scheduleTask\<close> returned:
  the shared pointer to the task, here its address.
\<close>

definition handle_execute :: "nat \<Rightarrow> 'w TaskScheduler \<Rightarrow> exn + 'w TaskScheduler" where
  "handle_execute h s =
     (case execute (heap s h) (world s) of
        Inl e \<Rightarrow> Inl e
      | Inr (t', w') \<Rightarrow> Inr (s\<lparr>heap := (heap s)(h := t'), world := w'\<rparr>))"

subsection \<open>Terminal statuses and the life of a task object\<close>

text \<open>The statuses from which no transition is specified.\<close>

definition terminal :: "TaskStatus \<Rightarrow> bool" where
  "terminal st = (st = COMPLETED \<or> st = FAILED \<or> st = CANCELLED)"

text \<open>
  The tasks that the constructor and any sequence of calls of the public methods
  \<open>cancel()\<close> and \<open>execute()\<close> produce.
\<close>

inductive task_reachable :: "'w Task \<Rightarrow> bool" where
  created: "task_reachable (new_Task rt name f priority scheduledTime cancellable)"
| cancelled: "task_reachable t \<Longrightarrow> task_reachable (cancel t)"
| executed: "task_reachable t \<Longrightarrow> execute t w = Inr (t', w') \<Longrightarrow> task_reachable t'"

subsection \<open>Example tasks and states\<close>

definition example_heap :: "nat \<Rightarrow> unit Task" where
  "example_heap a =
     new_Task IntT ''t'' (\<lambda>w. (Returned (IntV 1), w))
       (if a = 0 then LOW else HIGH) (if a = 1 then 9 else if a = 2 then 3 else 5) True"

definition ret1 :: "unit callable" where
  "ret1 w = (Returned (IntV 1), w)"

definition boom :: "unit callable" where
  "boom w = (Thrown (OtherException ''boom''), w)"

definition sched0 :: "unit TaskScheduler" where
  "sched0 = new_TaskScheduler 1 example_heap ()"

definition sched_x :: "unit TaskScheduler" where
  "sched_x = snd (scheduleTask IntT ''x'' ret1 MEDIUM 0 True 0 sched0)"

lemmas example_defs =
  sched_x_def sched0_def new_TaskScheduler_def new_ThreadPool_def scheduleTask_def enqueue_def
  pq_push_def new_Task_def new_TaskResult_def Let_def


definition failing_task :: "unit Task" where
  "failing_task = new_Task VoidT ''failing_task'' boom MEDIUM 0 True"

definition sched_failed :: "unit TaskScheduler" where
  "sched_failed =
     snd (worker_loop (snd (scheduleTask VoidT ''failing_task'' boom MEDIUM 0 True 0 sched0)))"

definition cancelled_task :: "unit Task" where
  "cancelled_task = cancel (new_Task IntT ''c'' ret1 HIGH 5 True)"

text \<open>
  A callable that returns 1 at its first call and throws at every later one, the task made
  from it, and that task after one \<open>execute()\<close>.
\<close>

definition flaky :: "nat callable" where
  "flaky n = (if n = 0 then Returned (IntV 1) else Thrown (OtherException ''second call''), Suc n)"

definition flaky_task :: "nat Task" where
  "flaky_task = new_Task IntT ''flaky'' flaky MEDIUM 0 True"

definition flaky_completed :: "nat Task" where
  "flaky_completed =
     flaky_task\<lparr>tresult := \<lparr>r_result = Some (IntV 1), r_exception = None, r_status = COMPLETED\<rparr>,
                tstatus := COMPLETED\<rparr>"

text \<open>
  A scheduler whose one task is the flaky one: as constructed, with the task scheduled,
  after its worker has run the task, and after the caller has then called \<open>execute()\<close>
  on the handle.
\<close>

definition flaky_sched0 :: "nat TaskScheduler" where
  "flaky_sched0 = new_TaskScheduler 1 (\<lambda>a. flaky_task) 0"

definition flaky_scheduled :: "nat TaskScheduler" where
  "flaky_scheduled = snd (scheduleTask IntT ''flaky'' flaky MEDIUM 0 True 0 flaky_sched0)"

definition flaky_ran :: "nat TaskScheduler" where
  "flaky_ran = snd (worker_loop flaky_scheduled)"

definition flaky_failed :: "nat TaskScheduler" where
  "flaky_failed = (case handle_execute 0 flaky_ran of Inr s \<Rightarrow> s | Inl e \<Rightarrow> flaky_ran)"

section \<open>Properties\<close>

subsection \<open>Basic facts\<close>

text \<open>\<open>execute()\<close> without the \<open>let\<close>, and how it and a pass of the worker end.\<close>

lemma execute_eq:
  "execute t w =
     (if tstatus t = CANCELLED then Inr (t, w)
      else
        (case tfunction t w of
           (Returned v, w') \<Rightarrow>
             Inr (t\<lparr>tresult := (if trtype t = VoidT then setCompleted (tresult t)
                                  else setResult v (tresult t)),
                    tstatus := COMPLETED\<rparr>, w')
         | (Thrown e, w') \<Rightarrow>
             Inr (t\<lparr>tresult := setException e (tresult t), tstatus := FAILED\<rparr>, w')))"
  by (simp add: execute_def Let_def split: prod.splits outcome.splits)

lemma execute_cases:
  "execute t w = Inr (t', w') \<Longrightarrow>
     (tstatus t = CANCELLED \<and> t' = t \<and> w' = w)
     \<or> (tstatus t \<noteq> CANCELLED \<and> (tstatus t' = COMPLETED \<or> tstatus t' = FAILED))"
  by (auto simp: execute_def Let_def split: if_splits prod.splits outcome.splits)

lemma execute_total: "\<exists>t' w'. execute t w = Inr (t', w')"
  by (auto simp: execute_def Let_def split: prod.splits outcome.splits)

lemma execute_not_Inl: "execute t w \<noteq> Inl e"
  using execute_total [of t w] by auto

lemma worker_pass_Return:
  assumes "worker_pass s = Return e s'"
  shows "s' = s \<and> pool_tasks (threadPool s) = []
         \<and> (if stop (threadPool s) then e = Exited else e = Blocked)"
  using assms
  by (auto simp: worker_pass_def Let_def pq_top_None execute_not_Inl
      split: if_splits option.splits sum.splits prod.splits)

lemma getTaskStatus_state: "snd (getTaskStatus name s) = s"
  by (simp add: getTaskStatus_def Let_def split: option.splits)

lemma sched_x_lookup: "map_of (tasks sched_x) ''x'' = Some 0"
  by (simp add: example_defs)

lemmas flaky_defs =
  flaky_failed_def flaky_ran_def flaky_scheduled_def flaky_sched0_def handle_execute_def
  new_TaskScheduler_def new_ThreadPool_def scheduleTask_def enqueue_def pq_push_def new_Task_def
  new_TaskResult_def Let_def worker_loop.simps worker_pass_def pq_top_def pq_pop_def execute_eq
  flaky_def setResult_def setException_def

subsection \<open>The priority queue under TaskComparator\<close>

lemma pq_best_max:
  assumes tr: "\<And>a b c. cmp a b \<Longrightarrow> cmp b c \<Longrightarrow> cmp a c"
    and ntr: "\<And>a b c. \<not> cmp a b \<Longrightarrow> \<not> cmp b c \<Longrightarrow> \<not> cmp a c"
    and irr: "\<And>a. \<not> cmp a a"
  shows "\<forall>y \<in> set (m # xs). \<not> cmp (pq_best cmp m xs) y"
proof (induction xs arbitrary: m)
  case Nil
  show ?case by (simp add: irr)
next
  case (Cons x xs)
  let ?m' = "if cmp m x then x else m"
  have IH: "\<forall>y \<in> set (?m' # xs). \<not> cmp (pq_best cmp ?m' xs) y" by (rule Cons.IH)
  have best: "\<not> cmp (pq_best cmp ?m' xs) ?m'" using IH by simp
  have "\<not> cmp (pq_best cmp ?m' xs) m"
  proof (cases "cmp m x")
    case True
    with best tr show ?thesis by auto
  next
    case False
    with best show ?thesis by simp
  qed
  moreover have "\<not> cmp (pq_best cmp ?m' xs) x"
  proof (cases "cmp m x")
    case True
    with best show ?thesis by simp
  next
    case False
    with best ntr show ?thesis by auto
  qed
  ultimately show ?case using IH by auto
qed

lemma priority_rank_inj: "priority_rank p = priority_rank q \<longleftrightarrow> p = q"
  by (cases p; cases q) auto

lemma TaskComparator_trans: "TaskComparator a b \<Longrightarrow> TaskComparator b c \<Longrightarrow> TaskComparator a c"
  by (auto simp: TaskComparator_def priority_rank_inj split: if_splits)

lemma TaskComparator_negtrans:
  "\<not> TaskComparator a b \<Longrightarrow> \<not> TaskComparator b c \<Longrightarrow> \<not> TaskComparator a c"
  by (auto simp: TaskComparator_def priority_rank_inj split: if_splits)

lemma TaskComparator_irrefl: "\<not> TaskComparator a a"
  by (simp add: TaskComparator_def)

lemma goes_first_iff: "goes_first A B \<longleftrightarrow> TaskComparator B A"
  by (auto simp: goes_first_def TaskComparator_def priority_rank_inj)

lemma pq_top_task_max:
  assumes "pq_top (task_cmp h) q = Some t" and "b \<in> set q"
  shows "\<not> task_cmp h t b"
proof -
  obtain x xs where q: "q = x # xs" and t: "t = pq_best (task_cmp h) x xs"
    using assms(1) by (auto simp: pq_top_def split: list.splits)
  have "\<forall>y \<in> set (x # xs). \<not> task_cmp h (pq_best (task_cmp h) x xs) y"
    by (rule pq_best_max)
      (auto simp: task_cmp_def TaskComparator_irrefl
            intro: TaskComparator_trans dest: TaskComparator_negtrans)
  with q t assms(2) show ?thesis by auto
qed

lemma mset_pq_drain: "mset (pq_drain cmp q) = mset q"
proof (induction cmp q rule: pq_drain.induct)
  case (1 cmp q)
  show ?case
  proof (cases "pq_top cmp q")
    case None
    then have "q = []" by (simp add: pq_top_None)
    then show ?thesis by (subst pq_drain.simps) (simp add: pq_top_def)
  next
    case (Some t)
    then have "t \<in> set q" by (rule pq_top_in)
    with Some "1.IH" [OF Some] show ?thesis
      by (subst pq_drain.simps) (simp add: pq_pop_def)
  qed
qed

lemma set_pq_drain: "set (pq_drain cmp q) = set q"
  by (metis mset_pq_drain set_mset_mset)

lemma sorted_pq_drain:
  assumes top: "\<And>q t b. pq_top cmp q = Some t \<Longrightarrow> b \<in> set q \<Longrightarrow> \<not> cmp t b"
  shows "sorted_wrt (\<lambda>x y. \<not> cmp x y) (pq_drain cmp q)"
  using top
proof (induction cmp q rule: pq_drain.induct)
  case (1 cmp q)
  show ?case
  proof (cases "pq_top cmp q")
    case None
    then show ?thesis by (subst pq_drain.simps) simp
  next
    case (Some t)
    have "set (pq_drain cmp (pq_pop cmp q)) = set (pq_pop cmp q)"
      by (rule set_pq_drain)
    also have "\<dots> \<subseteq> set q" using Some set_remove1_subset [of t q] by (auto simp: pq_pop_def)
    finally have sub: "set (pq_drain cmp (pq_pop cmp q)) \<subseteq> set q" .
    have hd: "\<forall>y \<in> set q. \<not> cmp t y" using "1.prems" [OF Some] by blast
    have tl: "sorted_wrt (\<lambda>x y. \<not> cmp x y) (pq_drain cmp (pq_pop cmp q))"
      using "1.IH" [OF Some] "1.prems" by blast
    show ?thesis using Some sub hd tl by (subst pq_drain.simps) auto
  qed
qed

text \<open>
  Claim C1. Let \<open>out\<close> be the order in which the tasks of the ready queue \<open>q\<close> are
  dequeued. Every queued task is dequeued, as often as it was queued. If the task dequeued
  at position \<open>i\<close> has a higher priority than the one dequeued at position \<open>j\<close>, or the
  same priority and an earlier scheduled time, then \<open>i < j\<close>: it is dequeued first. And
  whatever else is in the queue, \<open>top()\<close> never hands out a task while the queue holds
  one that goes first.
\<close>

theorem dequeue_order:
  fixes h :: "nat \<Rightarrow> 'w Task"
  assumes out: "out = pq_drain (task_cmp h) q"
  shows "mset out = mset q
    \<and> (\<forall>i j. i < length out \<and> j < length out \<and> goes_first (h (out ! i)) (h (out ! j)) \<longrightarrow> i < j)
    \<and> (\<forall>t b. pq_top (task_cmp h) q = Some t \<and> b \<in> set q \<longrightarrow> \<not> goes_first (h b) (h t))"
proof (intro conjI allI impI)
  show "mset out = mset q" by (simp add: out mset_pq_drain)
next
  fix i j
  assume a: "i < length out \<and> j < length out \<and> goes_first (h (out ! i)) (h (out ! j))"
  have srt: "sorted_wrt (\<lambda>x y. \<not> task_cmp h x y) out"
    unfolding out by (rule sorted_pq_drain) (rule pq_top_task_max)
  show "i < j"
  proof (rule ccontr)
    assume "\<not> i < j"
    then have "j < i \<or> j = i" by arith
    then show False
    proof
      assume "j < i"
      with a srt have "\<not> task_cmp h (out ! j) (out ! i)"
        by (simp add: sorted_wrt_iff_nth_less)
      with a show False by (simp add: goes_first_iff task_cmp_def)
    next
      assume "j = i"
      with a show False by (simp add: goes_first_iff TaskComparator_irrefl)
    qed
  qed
next
  fix t b
  assume "pq_top (task_cmp h) q = Some t \<and> b \<in> set q"
  then have "\<not> task_cmp h t b" using pq_top_task_max by blast
  then show "\<not> goes_first (h b) (h t)" by (simp add: goes_first_iff task_cmp_def)
qed

theorem dequeue_order_witness:
  "pq_drain (task_cmp example_heap) [0, 1, 2] = [2, 1, 0]
   \<and> goes_first (example_heap 2) (example_heap 1)
   \<and> goes_first (example_heap 1) (example_heap 0)
   \<and> mset [2, 1, 0 :: nat] = mset [0, 1, 2]
   \<and> pq_top (task_cmp example_heap) [0, 1, 2] = Some 2
   \<and> \<not> goes_first (example_heap 0) (example_heap 2)"
proof -
  have d: "pq_drain (task_cmp example_heap) [0, 1, 2] = [2, 1, 0]"
    by (simp add: pq_drain.simps pq_top_def pq_pop_def task_cmp_def TaskComparator_def
        example_heap_def new_Task_def)
  have t: "pq_top (task_cmp example_heap) [0, 1, 2] = Some 2"
    by (simp add: pq_top_def task_cmp_def TaskComparator_def example_heap_def new_Task_def)
  have g1: "goes_first (example_heap 2) (example_heap 1)"
    by (simp add: goes_first_def example_heap_def new_Task_def)
  have g2: "goes_first (example_heap 1) (example_heap 0)"
    by (simp add: goes_first_def example_heap_def new_Task_def)
  note inst = dequeue_order [OF d [symmetric]]
  from inst t have n: "\<not> goes_first (example_heap 0) (example_heap 2)"
    by simp
  from inst have m: "mset [2, 1, 0 :: nat] = mset [0, 1, 2]"
    by blast
  from d g1 g2 m t n show ?thesis by blast
qed

subsection \<open>scheduleTask under a name already registered\<close>

text \<open>
  Claim C2. In every scheduler state in which \<open>name\<close> is registered, \<open>scheduleTask\<close>
  throws \<open>DuplicateTaskException\<close> and the state after the call is the state before it:
  the registered task, its status and its result, the registry, the counter
  \<open>totalTasks\<close>, the pool's queue and the timers are all what they were.
\<close>

theorem scheduleTask_duplicate:
  assumes "map_of (tasks s) name = Some a"
  shows "scheduleTask rt name f priority scheduledTime cancellable now s =
     (Inl (DuplicateTaskException (''Task with name '' @ quoted name @ '' already exists'')), s)"
  using assms by (simp add: scheduleTask_def)

theorem scheduleTask_duplicate_witness:
  "map_of (tasks sched_x) ''x'' = Some 0
   \<and> scheduleTask StringT ''x'' boom HIGH 7 False 0 sched_x =
       (Inl (DuplicateTaskException (''Task with name '' @ quoted ''x'' @ '' already exists'')),
        sched_x)"
  using scheduleTask_duplicate [OF sched_x_lookup] sched_x_lookup by simp

subsection \<open>A callable that throws\<close>

text \<open>
  Claim C3. Let \<open>execute()\<close> call a callable that throws \<open>E\<close> (the task is not
  \<open>CANCELLED\<close>, so the callable is called). Then \<open>execute()\<close> returns normally, the task
  is \<open>FAILED\<close>, and \<open>getResult()\<close> on its result rethrows \<open>E\<close> itself; in every
  scheduler state that registers this task, \<open>getTaskResult<T>(name).getResult()\<close> throws
  \<open>E\<close>, and \<open>waitForTask<T>(name)\<close> returns at its first poll, throwing \<open>E\<close>
  (\<open>T\<close> the task's result type).
\<close>

theorem execute_captures_error:
  assumes "tstatus t \<noteq> CANCELLED" and "tfunction t w = (Thrown E, w')"
  shows "\<exists>t'. execute t w = Inr (t', w') \<and> tstatus t' = FAILED
           \<and> getResult (trtype t') (tresult t') = Inl E
           \<and> (\<forall>s name a env. map_of (tasks s) name = Some a \<and> heap s a = t' \<longrightarrow>
                 getTaskResult_getResult (trtype t) name s = Inl E
                 \<and> waitForTask env (trtype t) name s = Some (Inl E, s))"
proof -
  let ?t' = "t\<lparr>tstatus := RUNNING, tresult := setException E (tresult t), tstatus := FAILED\<rparr>"
  have ex: "execute t w = Inr (?t', w')"
    using assms by (simp add: execute_def)
  have gr: "getResult (trtype ?t') (tresult ?t') = Inl E"
    by (simp add: getResult_def setException_def)
  have "getTaskResult_getResult (trtype t) name s = Inl E
        \<and> waitForTask env (trtype t) name s = Some (Inl E, s)"
    if "map_of (tasks s) name = Some a \<and> heap s a = ?t'"
    for s :: "'a TaskScheduler" and name a env
  proof -
    have g: "getTaskResult_getResult (trtype t) name s = Inl E"
      using that gr by (simp add: getTaskResult_getResult_def getTaskResult_def)
    have st: "getTaskStatus name s = (Inr FAILED, s)"
      using that by (simp add: getTaskStatus_def)
    show ?thesis using g st by (subst waitForTask.simps) simp
  qed
  with ex gr show ?thesis by auto
qed

theorem execute_captures_error_witness:
  "tstatus failing_task \<noteq> CANCELLED
   \<and> tfunction failing_task () = (Thrown (OtherException ''boom''), ())
   \<and> map_of (tasks sched_failed) ''failing_task'' = Some 0
   \<and> execute failing_task () = Inr (heap sched_failed 0, ())
   \<and> tstatus (heap sched_failed 0) = FAILED
   \<and> getTaskResult_getResult VoidT ''failing_task'' sched_failed = Inl (OtherException ''boom'')
   \<and> waitForTask id VoidT ''failing_task'' sched_failed
       = Some (Inl (OtherException ''boom''), sched_failed)"
proof -
  have a: "tstatus failing_task \<noteq> CANCELLED"
    by (simp add: failing_task_def new_Task_def)
  have b: "tfunction failing_task () = (Thrown (OtherException ''boom''), ())"
    by (simp add: failing_task_def new_Task_def boom_def)
  have l: "map_of (tasks sched_failed) ''failing_task'' = Some 0"
    by (simp add: sched_failed_def worker_loop.simps worker_pass_def example_defs pq_top_def
        pq_pop_def execute_def boom_def setException_def)
  have e: "execute failing_task () = Inr (heap sched_failed 0, ())"
    by (simp add: sched_failed_def worker_loop.simps worker_pass_def example_defs pq_top_def
        pq_pop_def execute_def boom_def setException_def failing_task_def)
  have v: "trtype failing_task = VoidT"
    by (simp add: failing_task_def new_Task_def)
  from execute_captures_error [OF a b] e obtain t' where
    t': "t' = heap sched_failed 0" and f: "tstatus t' = FAILED" and
    all: "\<forall>s name a env. map_of (tasks s) name = Some a \<and> heap s a = t' \<longrightarrow>
            getTaskResult_getResult (trtype failing_task) name s = Inl (OtherException ''boom'')
            \<and> waitForTask env (trtype failing_task) name s = Some (Inl (OtherException ''boom''), s)"
    by auto
  from all l t' v have
    "getTaskResult_getResult VoidT ''failing_task'' sched_failed = Inl (OtherException ''boom'')
     \<and> waitForTask id VoidT ''failing_task'' sched_failed
         = Some (Inl (OtherException ''boom''), sched_failed)"
    by metis
  with a b l e f t' show ?thesis by simp
qed

subsection \<open>Shutdown of the pool\<close>







subsection \<open>cancelTask\<close>

text \<open>
  Claim C5. For an unregistered name \<open>cancelTask\<close> throws \<open>TaskNotFoundException\<close>.
  For a registered task it returns true exactly when the task is cancellable and
  \<open>PENDING\<close>, and then the task is \<open>CANCELLED\<close>; otherwise (the task is \<open>RUNNING\<close>,
  in a terminal status, or not cancellable) it returns false and changes nothing.
\<close>

theorem cancelTask_spec:
  "(map_of (tasks s) name = None \<longrightarrow> cancelTask name s = (Inl (not_found name), s))
   \<and> (\<forall>a. map_of (tasks s) name = Some a \<longrightarrow>
        (fst (cancelTask name s) = Inr True
           \<longleftrightarrow> tcancellable (heap s a) \<and> tstatus (heap s a) = PENDING)
      \<and> (tcancellable (heap s a) \<and> tstatus (heap s a) = PENDING
           \<longrightarrow> tstatus (heap (snd (cancelTask name s)) a) = CANCELLED)
      \<and> (\<not> (tcancellable (heap s a) \<and> tstatus (heap s a) = PENDING)
           \<longrightarrow> cancelTask name s = (Inr False, s)))"
  by (auto simp: cancelTask_def cancel_def Let_def)

theorem cancelTask_spec_witness:
  "map_of (tasks sched_x) ''x'' = Some 0
   \<and> tcancellable (heap sched_x 0) \<and> tstatus (heap sched_x 0) = PENDING
   \<and> fst (cancelTask ''x'' sched_x) = Inr True
   \<and> tstatus (heap (snd (cancelTask ''x'' sched_x)) 0) = CANCELLED
   \<and> map_of (tasks sched_x) ''y'' = None
   \<and> cancelTask ''y'' sched_x = (Inl (not_found ''y''), sched_x)"
proof -
  have p: "tcancellable (heap sched_x 0) \<and> tstatus (heap sched_x 0) = PENDING"
    by (simp add: example_defs)
  have n: "map_of (tasks sched_x) ''y'' = None"
    by (simp add: example_defs)
  from cancelTask_spec [of sched_x "''x''"] cancelTask_spec [of sched_x "''y''"]
    sched_x_lookup p n
  show ?thesis by simp
qed

subsection \<open>execute() on a cancelled task\<close>

lemma unstarted_holder_empty:
  "task_reachable t \<Longrightarrow> tstatus t = PENDING \<or> tstatus t = CANCELLED \<Longrightarrow>
     r_result (tresult t) = None \<and> r_exception (tresult t) = None"
proof (induction rule: task_reachable.induct)
  case (created rt name f priority scheduledTime cancellable)
  show ?case by (simp add: new_Task_def new_TaskResult_def)
next
  case (cancelled t)
  then show ?case by (auto simp: cancel_def setStatus_def split: if_splits)
next
  case (executed t w t' w')
  from executed.hyps(2) executed.prems executed.IH show ?case
    by (auto dest!: execute_cases)
qed

text \<open>
  Claim C6. For a task in status \<open>CANCELLED\<close> (any task that the constructor,
  \<open>cancel()\<close> and \<open>execute()\<close> can produce), \<open>execute()\<close> returns at once: the task
  and the environment of the callable are unchanged, the status is still \<open>CANCELLED\<close>,
  and the result holder has neither a value nor an exception.
\<close>

theorem execute_cancelled_noop:
  assumes "task_reachable t" and "tstatus t = CANCELLED"
  shows "\<exists>t'. execute t w = Inr (t', w) \<and> t' = t \<and> tstatus t' = CANCELLED
           \<and> \<not> hasResult (tresult t') \<and> \<not> hasException (tresult t')"
  using assms unstarted_holder_empty [OF assms(1)]
  by (simp add: execute_def hasResult_def hasException_def)

theorem execute_cancelled_noop_witness:
  "task_reachable cancelled_task \<and> tstatus cancelled_task = CANCELLED
   \<and> execute cancelled_task () = Inr (cancelled_task, ())
   \<and> \<not> hasResult (tresult cancelled_task) \<and> \<not> hasException (tresult cancelled_task)"
proof -
  have r: "task_reachable cancelled_task"
    unfolding cancelled_task_def by (intro task_reachable.cancelled task_reachable.created)
  have c: "tstatus cancelled_task = CANCELLED"
    by (simp add: cancelled_task_def cancel_def new_Task_def)
  from execute_cancelled_noop [OF r c, of "()"] r c show ?thesis by auto
qed

subsection \<open>Terminal statuses\<close>

text \<open>
  Claim C7 as stated fails for \<open>execute()\<close>: it only tests for \<open>CANCELLED\<close>. On the
  \<open>COMPLETED\<close> task it calls the callable again, which now throws, and the task ends
  \<open>FAILED\<close>.
\<close>

theorem terminal_status_counterexample:
  "execute flaky_task 0 = Inr (flaky_completed, 1)
   \<and> tstatus flaky_completed = COMPLETED
   \<and> execute flaky_completed 1 =
       Inr (flaky_completed
              \<lparr>tresult := \<lparr>r_result = Some (IntV 1),
                           r_exception = Some (OtherException ''second call''),
                           r_status = FAILED\<rparr>,
               tstatus := FAILED\<rparr>, 2)"
  by (simp add: execute_def flaky_task_def flaky_completed_def flaky_def new_Task_def
      new_TaskResult_def setResult_def setException_def)

text \<open>
  Claim C7, amended. \<open>cancel()\<close> and \<open>cancelTask\<close> leave a task in a terminal status
  unchanged (\<open>cancelTask\<close> returns false). \<open>execute()\<close> leaves a \<open>CANCELLED\<close> task
  and the environment unchanged. On a \<open>COMPLETED\<close> or \<open>FAILED\<close> task \<open>execute()\<close>
  calls the callable again: the environment is the one that call leaves, and the task ends
  \<open>COMPLETED\<close> if the call returns and \<open>FAILED\<close> if it throws.
\<close>

theorem terminal_status_amended:
  "(terminal (tstatus t) \<longrightarrow> cancel t = t)
   \<and> (\<forall>s name a. map_of (tasks s) name = Some a \<and> heap s a = t \<and> terminal (tstatus t) \<longrightarrow>
        cancelTask name s = (Inr False, s))
   \<and> (tstatus t = CANCELLED \<longrightarrow> execute t w = Inr (t, w))
   \<and> (tstatus t = COMPLETED \<or> tstatus t = FAILED \<longrightarrow>
        (\<exists>t'. execute t w = Inr (t', snd (tfunction t w))
           \<and> tstatus t' = (case fst (tfunction t w) of Returned v \<Rightarrow> COMPLETED | Thrown e \<Rightarrow> FAILED)))"
  by (auto simp: terminal_def cancel_def cancelTask_def execute_def Let_def
      split: prod.splits outcome.splits)

theorem terminal_status_amended_witness:
  "terminal (tstatus flaky_completed) \<and> cancel flaky_completed = flaky_completed
   \<and> tstatus flaky_completed = COMPLETED
   \<and> tfunction flaky_completed 1 = (Thrown (OtherException ''second call''), 2)
   \<and> (\<exists>t'. execute flaky_completed 1 = Inr (t', 2) \<and> tstatus t' = FAILED)
   \<and> map_of (tasks (snd (cancelTask ''x'' sched_x))) ''x'' = Some 0
   \<and> tstatus (heap (snd (cancelTask ''x'' sched_x)) 0) = CANCELLED
   \<and> cancelTask ''x'' (snd (cancelTask ''x'' sched_x)) = (Inr False, snd (cancelTask ''x'' sched_x))
   \<and> execute (heap (snd (cancelTask ''x'' sched_x)) 0) ()
       = Inr (heap (snd (cancelTask ''x'' sched_x)) 0, ())"
proof -
  let ?s = "snd (cancelTask ''x'' sched_x)"
  have t: "terminal (tstatus flaky_completed)" and c: "tstatus flaky_completed = COMPLETED"
    by (simp_all add: terminal_def flaky_completed_def)
  have f: "tfunction flaky_completed 1 = (Thrown (OtherException ''second call''), 2)"
    by (simp add: flaky_completed_def flaky_task_def new_Task_def flaky_def)
  have b: "map_of (tasks ?s) ''x'' = Some 0" "tstatus (heap ?s 0) = CANCELLED"
    by (simp_all add: cancelTask_def cancel_def example_defs)
  then have bt: "terminal (tstatus (heap ?s 0))" by (simp add: terminal_def)
  from terminal_status_amended [of flaky_completed 1] t c f
  have 1: "cancel flaky_completed = flaky_completed
     \<and> (\<exists>t'. execute flaky_completed 1 = Inr (t', 2) \<and> tstatus t' = FAILED)"
    by simp
  from terminal_status_amended [of "heap ?s 0" "()"] b bt
  have 2: "cancelTask ''x'' ?s = (Inr False, ?s)"
    and 3: "execute (heap ?s 0) () = Inr (heap ?s 0, ())"
    by blast+
  from t c f b 1 2 3 show ?thesis by simp
qed

subsection \<open>getTaskStatus and the counters\<close>

text \<open>
  Claim C8 at a concrete run: the task \<open>x\<close> is scheduled and a worker executes it;
  \<open>getTaskStatus\<close> then reports \<open>COMPLETED\<close>, and afterwards \<open>getStatistics\<close> still
  counts no completed task (of one task in total). The update in \<open>getTaskStatus\<close>
  compares the status it has just read with the status of the same task, so it never
  fires.
\<close>

theorem getTaskStatus_leaves_counters:
  "fst (getTaskStatus ''x'' (snd (worker_loop sched_x))) = Inr COMPLETED
   \<and> completedTasks (getStatistics (snd (getTaskStatus ''x'' (snd (worker_loop sched_x))))) = 0
   \<and> totalTasks (getStatistics (snd (getTaskStatus ''x'' (snd (worker_loop sched_x))))) = 1"
  by (simp add: getTaskStatus_def getStatistics_def worker_loop.simps worker_pass_def example_defs
      pq_top_def pq_pop_def execute_def ret1_def setResult_def)

text \<open>
  No operation increments the counters of completed and failed tasks: \<open>scheduleTask\<close>,
  \<open>cancelTask\<close>, \<open>cleanup\<close> and a worker's run leave both as they are, and
  \<open>getTaskStatus\<close> leaves the whole state as it is.
\<close>

lemma worker_pass_stats: "worker_pass s = Again s' \<Longrightarrow> stats s' = stats s"
  by (auto simp: worker_pass_def Let_def split: if_splits option.splits sum.splits prod.splits)

lemma worker_loop_stats: "stats (snd (worker_loop s)) = stats s"
proof (induction s rule: worker_loop.induct)
  case (1 s)
  show ?case
  proof (cases "worker_pass s")
    case (Return e s')
    then have "s' = s" by (auto dest: worker_pass_Return)
    with Return show ?thesis by (simp add: worker_loop.simps [of s])
  next
    case (Again s')
    with "1.IH" [OF Again] worker_pass_stats [OF Again] show ?thesis
      by (simp add: worker_loop.simps [of s])
  qed
qed

theorem counters_untouched:
  "completedTasks (getStatistics (snd (scheduleTask rt name f priority scheduledTime cancellable now s)))
     = completedTasks (getStatistics s)
   \<and> failedTasks (getStatistics (snd (scheduleTask rt name f priority scheduledTime cancellable now s)))
     = failedTasks (getStatistics s)
   \<and> completedTasks (getStatistics (snd (cancelTask name s))) = completedTasks (getStatistics s)
   \<and> failedTasks (getStatistics (snd (cancelTask name s))) = failedTasks (getStatistics s)
   \<and> snd (getTaskStatus name s) = s
   \<and> completedTasks (getStatistics (cleanup s)) = completedTasks (getStatistics s)
   \<and> failedTasks (getStatistics (cleanup s)) = failedTasks (getStatistics s)
   \<and> completedTasks (getStatistics (snd (worker_loop s))) = completedTasks (getStatistics s)
   \<and> failedTasks (getStatistics (snd (worker_loop s))) = failedTasks (getStatistics s)"
proof -
  have "stats_completedTasks (stats (snd (scheduleTask rt name f priority scheduledTime cancellable now s)))
          = stats_completedTasks (stats s)
      \<and> stats_failedTasks (stats (snd (scheduleTask rt name f priority scheduledTime cancellable now s)))
          = stats_failedTasks (stats s)"
    by (simp add: scheduleTask_def Let_def enqueue_def)
  moreover have "stats_completedTasks (stats (snd (cancelTask name s))) = stats_completedTasks (stats s)
      \<and> stats_failedTasks (stats (snd (cancelTask name s))) = stats_failedTasks (stats s)"
    by (simp add: cancelTask_def Let_def split: option.splits)
  moreover have "stats (cleanup s) = stats s"
    by (simp add: cleanup_def)
  ultimately show ?thesis
    by (simp add: getStatistics_def getTaskStatus_state worker_loop_stats)
qed

subsection \<open>The errors of getTaskResult\<close>

text \<open>
  Claim C9. \<open>getTaskResult<T>\<close> throws \<open>TaskNotFoundException\<close> for an unregistered
  name. For a registered task whose result type is not \<open>T\<close> it throws the type mismatch
  error, a \<open>TaskSchedulerException\<close> with the message \<open>Task result type mismatch\<close>,
  which is neither a \<open>TaskNotFoundException\<close> nor a \<open>DuplicateTaskException\<close>: a
  handler for either does not catch it.
\<close>

theorem getTaskResult_errors:
  "(map_of (tasks s) name = None \<longrightarrow>
      getTaskResult rt name s = Inl (not_found name)
      \<and> caught_by (not_found name) CTaskNotFoundException)
   \<and> (\<forall>a. map_of (tasks s) name = Some a \<and> trtype (heap s a) \<noteq> rt \<longrightarrow>
        getTaskResult rt name s = Inl (TaskSchedulerException ''Task result type mismatch'')
        \<and> \<not> caught_by (TaskSchedulerException ''Task result type mismatch'') CTaskNotFoundException
        \<and> \<not> caught_by (TaskSchedulerException ''Task result type mismatch'') CDuplicateTaskException)"
  by (auto simp: getTaskResult_def not_found_def)

theorem getTaskResult_errors_witness:
  "map_of (tasks sched_x) ''y'' = None
   \<and> getTaskResult IntT ''y'' sched_x = Inl (not_found ''y'')
   \<and> map_of (tasks sched_x) ''x'' = Some 0
   \<and> trtype (heap sched_x 0) \<noteq> StringT
   \<and> getTaskResult StringT ''x'' sched_x = Inl (TaskSchedulerException ''Task result type mismatch'')"
proof -
  have p: "trtype (heap sched_x 0) \<noteq> StringT"
    by (simp add: example_defs)
  have n: "map_of (tasks sched_x) ''y'' = None"
    by (simp add: example_defs)
  from getTaskResult_errors [of sched_x "''y''" IntT] getTaskResult_errors [of sched_x "''x''" StringT]
    sched_x_lookup p n
  show ?thesis by simp
qed

subsection \<open>The type-erased accessor\<close>

text \<open>
  Claim C10 as stated fails for a \<open>FAILED\<close> task. The flaky task is scheduled, the worker
  runs it and it is \<open>COMPLETED\<close> with the value 1. The caller then calls \<open>execute()\<close>
  on the handle; the callable throws, \<open>setException\<close> leaves the stored value where it
  is, and the task is \<open>FAILED\<close>. \<open>getTaskResultAsAny\<close> looks only at the stored value:
  it returns the \<open>any\<close> holding the \<open>std::optional\<close> with 1, not an empty one.
\<close>

theorem getTaskResultAsAny_counterexample:
  "fst (scheduleTask IntT ''flaky'' flaky MEDIUM 0 True 0 flaky_sched0) = Inr 0
   \<and> tstatus (heap flaky_scheduled 0) = PENDING
   \<and> tstatus (heap flaky_ran 0) = COMPLETED
   \<and> handle_execute 0 flaky_ran = Inr flaky_failed
   \<and> map_of (tasks flaky_failed) ''flaky'' = Some 0
   \<and> trtype (heap flaky_failed 0) = IntT
   \<and> tstatus (heap flaky_failed 0) = FAILED
   \<and> r_exception (tresult (heap flaky_failed 0)) = Some (OtherException ''second call'')
   \<and> getTaskResultAsAny ''flaky'' flaky_failed = Inr (AnyOptional (Some (IntV 1)))
   \<and> getTaskResultAsAny ''flaky'' flaky_failed \<noteq> Inr AnyEmpty"
  by (simp add: flaky_defs getTaskResultAsAny_def getResultAsAny_def hasResult_def
      tryGetResult_def)

lemma completed_holds_value:
  "task_reachable t \<Longrightarrow> tstatus t = COMPLETED \<Longrightarrow> trtype t \<noteq> VoidT \<Longrightarrow>
     r_result (tresult t) \<noteq> None"
proof (induction rule: task_reachable.induct)
  case (created rt name f priority scheduledTime cancellable)
  then show ?case by (simp add: new_Task_def)
next
  case (cancelled t)
  then show ?case by (auto simp: cancel_def split: if_splits)
next
  case (executed t w t' w')
  show ?case
  proof (cases "tstatus t = CANCELLED")
    case True
    with executed.hyps(2) executed.prems show ?thesis by (simp add: execute_eq)
  next
    case False
    obtain out w2 where f: "tfunction t w = (out, w2)" by (cases "tfunction t w")
    show ?thesis
    proof (cases out)
      case (Returned v)
      with executed.hyps(2) f False executed.prems show ?thesis
        by (auto simp: execute_eq setResult_def)
    next
      case (Thrown e)
      with executed.hyps(2) f False executed.prems show ?thesis
        by (auto simp: execute_eq)
    qed
  qed
qed

text \<open>
  Claim C10, amended. \<open>getTaskResultAsAny(name)\<close> throws only for an unregistered name,
  and then \<open>TaskNotFoundException\<close>; for a registered task it returns normally, and it
  does not look at the status. For a task with result type \<open>void\<close> it returns the empty
  \<open>any\<close>. For any other result type it returns the empty \<open>any\<close> if the result holder
  stores no value, and otherwise an \<open>any\<close> that holds the \<open>std::optional\<close> with the
  stored value, not the value itself. For a task that the constructor and calls of
  \<open>cancel()\<close> and \<open>execute()\<close> have produced, this is the empty \<open>any\<close> when the
  task is \<open>PENDING\<close>, and the \<open>std::optional\<close> with the value when it is
  \<open>COMPLETED\<close> and not \<open>void\<close>.
\<close>

theorem getTaskResultAsAny_amended:
  "(map_of (tasks s) name = None \<longrightarrow> getTaskResultAsAny name s = Inl (not_found name))
   \<and> (\<forall>a. map_of (tasks s) name = Some a \<longrightarrow>
         (trtype (heap s a) = VoidT \<longrightarrow> getTaskResultAsAny name s = Inr AnyEmpty)
       \<and> (trtype (heap s a) \<noteq> VoidT \<longrightarrow>
            getTaskResultAsAny name s =
              Inr (case r_result (tresult (heap s a)) of
                     None \<Rightarrow> AnyEmpty
                   | Some v \<Rightarrow> AnyOptional (Some v)))
       \<and> (task_reachable (heap s a) \<and> tstatus (heap s a) = PENDING \<longrightarrow>
            getTaskResultAsAny name s = Inr AnyEmpty)
       \<and> (task_reachable (heap s a) \<and> trtype (heap s a) \<noteq> VoidT
            \<and> tstatus (heap s a) = COMPLETED \<longrightarrow>
            (\<exists>v. r_result (tresult (heap s a)) = Some v
               \<and> getTaskResultAsAny name s = Inr (AnyOptional (Some v)))))"
proof (intro conjI allI impI)
  assume "map_of (tasks s) name = None"
  then show "getTaskResultAsAny name s = Inl (not_found name)"
    by (simp add: getTaskResultAsAny_def)
next
  fix a assume "map_of (tasks s) name = Some a" "trtype (heap s a) = VoidT"
  then show "getTaskResultAsAny name s = Inr AnyEmpty"
    by (simp add: getTaskResultAsAny_def getResultAsAny_def)
next
  fix a assume "map_of (tasks s) name = Some a" "trtype (heap s a) \<noteq> VoidT"
  then show "getTaskResultAsAny name s =
      Inr (case r_result (tresult (heap s a)) of None \<Rightarrow> AnyEmpty | Some v \<Rightarrow> AnyOptional (Some v))"
    by (simp add: getTaskResultAsAny_def getResultAsAny_def hasResult_def tryGetResult_def
        split: option.splits)
next
  fix a assume l: "map_of (tasks s) name = Some a"
    and p: "task_reachable (heap s a) \<and> tstatus (heap s a) = PENDING"
  then have "r_result (tresult (heap s a)) = None"
    using unstarted_holder_empty [of "heap s a"] by simp
  with l show "getTaskResultAsAny name s = Inr AnyEmpty"
    by (simp add: getTaskResultAsAny_def getResultAsAny_def hasResult_def)
next
  fix a assume l: "map_of (tasks s) name = Some a"
    and c: "task_reachable (heap s a) \<and> trtype (heap s a) \<noteq> VoidT
            \<and> tstatus (heap s a) = COMPLETED"
  then obtain v where v: "r_result (tresult (heap s a)) = Some v"
    using completed_holds_value [of "heap s a"] by auto
  with l c show "\<exists>v. r_result (tresult (heap s a)) = Some v
               \<and> getTaskResultAsAny name s = Inr (AnyOptional (Some v))"
    by (simp add: getTaskResultAsAny_def getResultAsAny_def hasResult_def tryGetResult_def)
qed

theorem getTaskResultAsAny_amended_witness:
  "map_of (tasks flaky_scheduled) ''flaky'' = Some 0
   \<and> task_reachable (heap flaky_scheduled 0) \<and> tstatus (heap flaky_scheduled 0) = PENDING
   \<and> getTaskResultAsAny ''flaky'' flaky_scheduled = Inr AnyEmpty
   \<and> map_of (tasks flaky_ran) ''flaky'' = Some 0
   \<and> task_reachable (heap flaky_ran 0) \<and> trtype (heap flaky_ran 0) \<noteq> VoidT
   \<and> tstatus (heap flaky_ran 0) = COMPLETED
   \<and> getTaskResultAsAny ''flaky'' flaky_ran = Inr (AnyOptional (Some (IntV 1)))
   \<and> map_of (tasks flaky_failed) ''flaky'' = Some 0
   \<and> trtype (heap flaky_failed 0) \<noteq> VoidT
   \<and> r_result (tresult (heap flaky_failed 0)) = Some (IntV 1)
   \<and> getTaskResultAsAny ''flaky'' flaky_failed = Inr (AnyOptional (Some (IntV 1)))
   \<and> map_of (tasks flaky_failed) ''nobody'' = None
   \<and> getTaskResultAsAny ''nobody'' flaky_failed = Inl (not_found ''nobody'')"
proof -
  have h0: "heap flaky_scheduled 0 = flaky_task"
    by (simp add: flaky_defs flaky_task_def)
  have r0: "task_reachable (heap flaky_scheduled 0)"
    unfolding h0 flaky_task_def by (rule task_reachable.created)
  have e: "execute (heap flaky_scheduled 0) 0 = Inr (heap flaky_ran 0, 1)"
    by (simp add: flaky_defs)
  have r1: "task_reachable (heap flaky_ran 0)"
    using r0 e by (rule task_reachable.executed)
  have a: "map_of (tasks flaky_scheduled) ''flaky'' = Some 0"
      "tstatus (heap flaky_scheduled 0) = PENDING"
    by (simp_all add: flaky_defs)
  have b: "map_of (tasks flaky_ran) ''flaky'' = Some 0" "trtype (heap flaky_ran 0) \<noteq> VoidT"
      "tstatus (heap flaky_ran 0) = COMPLETED" "r_result (tresult (heap flaky_ran 0)) = Some (IntV 1)"
    by (simp_all add: flaky_defs)
  have c: "map_of (tasks flaky_failed) ''flaky'' = Some 0"
      "trtype (heap flaky_failed 0) \<noteq> VoidT"
      "r_result (tresult (heap flaky_failed 0)) = Some (IntV 1)"
      "map_of (tasks flaky_failed) ''nobody'' = None"
    by (simp_all add: flaky_defs)
  from getTaskResultAsAny_amended [of flaky_scheduled "''flaky''"] a r0
  have 1: "getTaskResultAsAny ''flaky'' flaky_scheduled = Inr AnyEmpty" by blast
  from getTaskResultAsAny_amended [of flaky_ran "''flaky''"] b r1
  have 2: "getTaskResultAsAny ''flaky'' flaky_ran = Inr (AnyOptional (Some (IntV 1)))" by auto
  from getTaskResultAsAny_amended [of flaky_failed "''flaky''"] c
  have 3: "getTaskResultAsAny ''flaky'' flaky_failed = Inr (AnyOptional (Some (IntV 1)))" by simp
  from getTaskResultAsAny_amended [of flaky_failed "''nobody''"] c
  have 4: "getTaskResultAsAny ''nobody'' flaky_failed = Inl (not_found ''nobody'')" by simp
  from a b c r0 r1 1 2 3 4 show ?thesis by simp
qed

subsection \<open>Registering and cleaning up\<close>

text \<open>
  \<open>cleanup()\<close> removes from the registry exactly the entries whose task is
  \<open>COMPLETED\<close>, \<open>FAILED\<close> or \<open>CANCELLED\<close>, and touches nothing else: the task
  objects, the pool, the timers and the counters stay.
\<close>

theorem cleanup_removes_terminal:
  "set (tasks (cleanup s)) = {(name, a). (name, a) \<in> set (tasks s) \<and> \<not> terminal (tstatus (heap s a))}
   \<and> heap (cleanup s) = heap s
   \<and> threadPool (cleanup s) = threadPool s \<and> timers (cleanup s) = timers s
   \<and> stats (cleanup s) = stats s"
  by (auto simp: cleanup_def terminal_def)

text \<open>
  \<open>scheduleTask\<close> under a name that is not registered, on a pool that is not stopped:
  it returns the handle of a new \<open>PENDING\<close> task, registers it under the name, counts
  it in \<open>totalTasks\<close>, and puts it in the pool's queue if its scheduled time is not
  after the clock, and in the hands of a timer otherwise.
\<close>

theorem scheduleTask_fresh:
  assumes "map_of (tasks s) name = None" and "\<not> stop (threadPool s)"
  shows "\<exists>s'. scheduleTask rt name f priority scheduledTime cancellable now s = (Inr (next_addr s), s')
           \<and> map_of (tasks s') name = Some (next_addr s)
           \<and> heap s' (next_addr s) = new_Task rt name f priority scheduledTime cancellable
           \<and> tstatus (heap s' (next_addr s)) = PENDING
           \<and> totalTasks (getStatistics s') = totalTasks (getStatistics s) + 1
           \<and> (if scheduledTime \<le> now
               then pool_tasks (threadPool s') = pool_tasks (threadPool s) @ [next_addr s]
                    \<and> timers s' = timers s
               else pool_tasks (threadPool s') = pool_tasks (threadPool s)
                    \<and> timers s' = timers s @ [next_addr s])"
  using assms
  by (simp add: scheduleTask_def Let_def enqueue_def pq_push_def getStatistics_def new_Task_def)

theorem scheduleTask_fresh_witness:
  "map_of (tasks sched0) ''x'' = None \<and> \<not> stop (threadPool sched0)
   \<and> scheduleTask IntT ''x'' ret1 MEDIUM 0 True 0 sched0 = (Inr 0, sched_x)
   \<and> map_of (tasks sched_x) ''x'' = Some 0
   \<and> tstatus (heap sched_x 0) = PENDING
   \<and> totalTasks (getStatistics sched_x) = 1
   \<and> pool_tasks (threadPool sched_x) = [0] \<and> timers sched_x = []"
proof -
  have a: "map_of (tasks sched0) ''x'' = None" "\<not> stop (threadPool sched0)"
    "next_addr sched0 = 0" "pool_tasks (threadPool sched0) = []" "timers sched0 = []"
    "totalTasks (getStatistics sched0) = 0"
    by (simp_all add: sched0_def new_TaskScheduler_def new_ThreadPool_def getStatistics_def)
  from scheduleTask_fresh [OF a(1,2), of IntT ret1 MEDIUM 0 True 0] a
  show ?thesis by (auto simp: sched_x_def)
qed

end
